theory Spec2Isabelle
  imports Main "HOL-Library.Multiset"
begin

section \<open>JavaScript values, responses and log records\<close>

text \<open>
  The middleware of the repository is Express code: a handler either calls \<^verbatim>\<open>next()\<close>
  or ends the request with \<^verbatim>\<open>res.status(c).json(body)\<close>, and on some paths it writes
  a record to the logger first. A run of a handler is modelled by the value it leaves
  behind: the outcome and the log records, in the order they were written.
\<close>

datatype jsval =
    JUndefined
  | JNull
  | JBool bool
  | JNum int
  | JStr string
  | JArr "jsval list"

text \<open>JavaScript truthiness, as used by \<^verbatim>\<open>!x\<close> and \<^verbatim>\<open>x || y\<close>.\<close>

fun truthy :: "jsval \<Rightarrow> bool" where
  "truthy JUndefined = False"
| "truthy JNull = False"
| "truthy (JBool b) = b"
| "truthy (JNum n) = (n \<noteq> 0)"
| "truthy (JStr s) = (s \<noteq> [])"
| "truthy (JArr vs) = True"

definition js_or :: "jsval \<Rightarrow> jsval \<Rightarrow> jsval" where
  "js_or a b = (if truthy a then a else b)"

datatype outcome =
    Next
  | Respond nat "(string \<times> string) list"

datatype log_level = Warn | Error

record log_entry =
  severity :: log_level
  message :: string
  meta :: "(string \<times> jsval) list"

section \<open>The role authorizer (backend/middleware/authorizeRole.js)\<close>

text \<open>
  \<^verbatim>\<open>ROLE_HIERARCHY\<close> is an object literal with five own properties. Reading
  \<^verbatim>\<open>ROLE_HIERARCHY[r]\<close> for a string \<open>r\<close> is an ordinary property read: an own property
  gives its number, a name that \<^verbatim>\<open>Object.prototype\<close> defines gives the inherited
  function or object (for instance \<^verbatim>\<open>ROLE_HIERARCHY['constructor']\<close> is the function
  \<^verbatim>\<open>Object\<close>), and any other name gives \<^verbatim>\<open>undefined\<close>.
\<close>

definition ROLE_HIERARCHY :: "(string \<times> int) list" where
  "ROLE_HIERARCHY =
     [(''admin'', 5), (''manager'', 4), (''dentist'', 3), (''staff'', 2), (''patient'', 1)]"

definition Object_prototype_names :: "string list" where
  "Object_prototype_names =
     [''constructor'', ''__defineGetter__'', ''__defineSetter__'', ''hasOwnProperty'',
      ''__lookupGetter__'', ''__lookupSetter__'', ''isPrototypeOf'',
      ''propertyIsEnumerable'', ''toString'', ''valueOf'', ''__proto__'',
      ''toLocaleString'']"

text \<open>
  What a read of \<^verbatim>\<open>ROLE_HIERARCHY\<close> can give once \<^verbatim>\<open>|| 0\<close> has replaced
  \<^verbatim>\<open>undefined\<close>: a number, or a member of \<^verbatim>\<open>Object.prototype\<close> (named by its key).
\<close>

datatype hval = Level int | Inherited string

definition ROLE_HIERARCHY_get :: "string \<Rightarrow> hval option" where
  "ROLE_HIERARCHY_get r =
     (case map_of ROLE_HIERARCHY r of
        Some n \<Rightarrow> Some (Level n)
      | None \<Rightarrow> if r \<in> set Object_prototype_names then Some (Inherited r) else None)"

text \<open>\<^verbatim>\<open>v || 0\<close>: \<^verbatim>\<open>undefined\<close> and the number 0 are falsy, functions and objects are truthy.\<close>

definition or_zero :: "hval option \<Rightarrow> hval" where
  "or_zero v =
     (case v of
        None \<Rightarrow> Level 0
      | Some (Level n) \<Rightarrow> if n = 0 then Level 0 else Level n
      | Some (Inherited p) \<Rightarrow> Inherited p)"

text \<open>
  Numbers as \<^verbatim>\<open>Math.min\<close> and \<^verbatim>\<open>>=\<close> see them. A function or a plain object converts
  to its source text or to \<^verbatim>\<open>"[object Object]"\<close> and from there to \<^verbatim>\<open>NaN\<close>.
\<close>

datatype jsnum = Fin int | PosInf | NaN

fun ToNumber :: "hval \<Rightarrow> jsnum" where
  "ToNumber (Level n) = Fin n"
| "ToNumber (Inherited p) = NaN"

fun min2 :: "jsnum \<Rightarrow> jsnum \<Rightarrow> jsnum" where
  "min2 NaN b = NaN"
| "min2 a NaN = NaN"
| "min2 PosInf b = b"
| "min2 a PosInf = a"
| "min2 (Fin a) (Fin b) = Fin (min a b)"

text \<open>\<^verbatim>\<open>Math.min(...xs)\<close>: \<^verbatim>\<open>Infinity\<close> for no argument, \<^verbatim>\<open>NaN\<close> as soon as one argument is.\<close>

definition Math_min :: "jsnum list \<Rightarrow> jsnum" where
  "Math_min xs = foldl min2 PosInf xs"

text \<open>\<^verbatim>\<open>a >= b\<close> on numbers: false whenever an operand is \<^verbatim>\<open>NaN\<close>.\<close>

fun js_ge :: "jsnum \<Rightarrow> jsnum \<Rightarrow> bool" where
  "js_ge NaN b = False"
| "js_ge a NaN = False"
| "js_ge PosInf b = True"
| "js_ge (Fin a) PosInf = False"
| "js_ge (Fin a) (Fin b) = (b \<le> a)"

text \<open>
  \<^verbatim>\<open>req.user\<close> is the decoded token payload; the authorizer reads four of its fields.
  The role claim is a string (the token claims contract).
\<close>

record user =
  userId :: jsval
  id' :: jsval
  username :: jsval
  role :: string

record request =
  req_user :: "user option"
  originalUrl :: string
  req_method :: string

record options =
  strict :: "bool option"

record result =
  outcome :: outcome
  logs :: "log_entry list"

definition strict_denied :: outcome where
  "strict_denied =
     Respond 403 [(''message'', ''Access denied. This endpoint requires specific role access.'')]"

definition insufficient :: outcome where
  "insufficient = Respond 403 [(''message'', ''Access denied. Insufficient permissions.'')]"

definition requiredLevel :: "string list \<Rightarrow> jsnum" where
  "requiredLevel allowedRoles =
     Math_min (map (\<lambda>r. ToNumber (or_zero (ROLE_HIERARCHY_get r))) allowedRoles)"

text \<open>
  \<^verbatim>\<open>authorizeRole(allowedRoles, options)\<close> applied to a request. \<open>now\<close> stands for
  \<^verbatim>\<open>new Date().toISOString()\<close> at the time of the denial.
\<close>

definition authorizeRole :: "string list \<Rightarrow> options \<Rightarrow> string \<Rightarrow> request \<Rightarrow> result" where
  "authorizeRole allowedRoles opts now req =
     (let strict_flag = (case strict opts of None \<Rightarrow> False | Some b \<Rightarrow> b) in
      case req_user req of
        None \<Rightarrow>
          \<lparr>outcome = Respond 401 [(''message'', ''Authentication required'')], logs = []\<rparr>
      | Some u \<Rightarrow>
          let userRole = role u;
              userLevel = or_zero (ROLE_HIERARCHY_get userRole)
          in
            if userRole \<in> set allowedRoles then \<lparr>outcome = Next, logs = []\<rparr>
            else if strict_flag then
              \<lparr>outcome = strict_denied,
               logs = [\<lparr>severity = Warn, message = ''Authorization failed (strict mode)'',
                        meta = [(''userId'', js_or (userId u) (id' u)),
                                (''username'', username u),
                                (''userRole'', JStr userRole),
                                (''requiredRoles'', JArr (map JStr allowedRoles)),
                                (''strictMode'', JBool True),
                                (''resource'', JStr (originalUrl req)),
                                (''method'', JStr (req_method req)),
                                (''timestamp'', JStr now)]\<rparr>]\<rparr>
            else if js_ge (ToNumber userLevel) (requiredLevel allowedRoles) then
              \<lparr>outcome = Next, logs = []\<rparr>
            else
              \<lparr>outcome = insufficient,
               logs = [\<lparr>severity = Warn, message = ''Authorization failed'',
                        meta = [(''userId'', js_or (userId u) (id' u)),
                                (''username'', username u),
                                (''userRole'', JStr userRole),
                                (''requiredRoles'', JArr (map JStr allowedRoles)),
                                (''resource'', JStr (originalUrl req)),
                                (''method'', JStr (req_method req)),
                                (''timestamp'', JStr now)]\<rparr>]\<rparr>)"

text \<open>
  The rank of a role as the specification words it: the five roles have ranks 5 down to 1,
  every other name has rank 0.
\<close>

definition rank :: "string \<Rightarrow> int" where
  "rank r =
     (if r = ''admin'' then 5 else if r = ''manager'' then 4 else if r = ''dentist'' then 3
      else if r = ''staff'' then 2 else if r = ''patient'' then 1 else 0)"

definition closed_roles :: "string list" where
  "closed_roles = [''admin'', ''manager'', ''dentist'', ''staff'', ''patient'']"

section \<open>Token verification (backend/middleware/authenticate.js)\<close>

subsection \<open>String operations\<close>

text \<open>\<^verbatim>\<open>s.startsWith(p)\<close>.\<close>

definition startsWith :: "string \<Rightarrow> string \<Rightarrow> bool" where
  "startsWith s p = (take (length p) s = p)"

text \<open>
  \<^verbatim>\<open>s.split(sep)\<close> for a one-character separator: the pieces between the separators,
  empty pieces included, so the result is never empty.
\<close>

fun js_split :: "char \<Rightarrow> string \<Rightarrow> string list" where
  "js_split sep [] = [[]]"
| "js_split sep (c # cs) =
     (if c = sep then [] # js_split sep cs
      else (case js_split sep cs of [] \<Rightarrow> [[c]] | w # ws \<Rightarrow> (c # w) # ws))"

text \<open>\<^verbatim>\<open>xs[i]\<close> on an array: \<^verbatim>\<open>undefined\<close> (here \<open>None\<close>) past the end.\<close>

definition at_index :: "'a list \<Rightarrow> nat \<Rightarrow> 'a option" where
  "at_index xs i = (if i < length xs then Some (xs ! i) else None)"

subsection \<open>The call to the token library\<close>

text \<open>
  The decoded payload is a JSON object; reading a claim that is absent gives
  \<^verbatim>\<open>undefined\<close>.
\<close>

type_synonym payload = "string \<rightharpoonup> jsval"

definition field :: "payload \<Rightarrow> string \<Rightarrow> jsval" where
  "field p k = (case p k of None \<Rightarrow> JUndefined | Some v \<Rightarrow> v)"

record verify_options =
  algorithms :: "string list"
  complete :: bool

text \<open>What \<^verbatim>\<open>jwt.verify\<close> throws: an error object with a name and a message.\<close>

record thrown =
  name :: string
  error_message :: string

text \<open>
  \<^verbatim>\<open>jwt.verify(token, secret, options)\<close> belongs to the \<^verbatim>\<open>jsonwebtoken\<close> package. The
  middleware is modelled over any such function: it returns the payload or throws.
\<close>

type_synonym verifier = "string \<Rightarrow> string option \<Rightarrow> verify_options \<Rightarrow> thrown + payload"

record auth_request =
  authorization :: "string option"
  ip :: string

text \<open>
  The result of one run of the middleware. \<open>auth_user\<close> is \<^verbatim>\<open>req.user\<close> afterwards:
  the principal, attached only on the path that calls \<^verbatim>\<open>next()\<close>.
\<close>

record auth_result =
  auth_outcome :: outcome
  auth_user :: "payload option"
  auth_logs :: "log_entry list"

definition authentication_required :: auth_result where
  "authentication_required =
     \<lparr>auth_outcome = Respond 401 [(''message'', ''Authentication required'')],
      auth_user = None, auth_logs = []\<rparr>"

text \<open>
  \<^verbatim>\<open>authenticate(req, res, next)\<close>. \<open>JWT_SECRET\<close> is \<^verbatim>\<open>process.env.JWT_SECRET\<close>, which may
  be unset. The \<^verbatim>\<open>catch\<close> block is the \<open>Inl\<close> branch.
\<close>

definition authenticate :: "verifier \<Rightarrow> string option \<Rightarrow> auth_request \<Rightarrow> auth_result" where
  "authenticate jwt_verify JWT_SECRET req =
     (case authorization req of
        None \<Rightarrow> authentication_required
      | Some authHeader \<Rightarrow>
          if authHeader = [] \<or> \<not> startsWith authHeader ''Bearer '' then authentication_required
          else
            (case at_index (js_split CHR '' '' authHeader) 1 of
               None \<Rightarrow> authentication_required
             | Some token \<Rightarrow>
                 if token = [] \<or> token = ''null'' \<or> token = ''undefined''
                 then authentication_required
                 else
                   (case jwt_verify token JWT_SECRET
                           \<lparr>algorithms = [''HS256''], complete = False\<rparr> of
                      Inr decoded \<Rightarrow>
                        if \<not> truthy (field decoded ''userId'') \<or> \<not> truthy (field decoded ''role'')
                        then
                          \<lparr>auth_outcome = Respond 401 [(''message'', ''Invalid token'')],
                           auth_user = None,
                           auth_logs = [\<lparr>severity = Warn, message = ''Invalid token payload'',
                                         meta = [(''userId'', field decoded ''userId'')]\<rparr>]\<rparr>
                        else
                          \<lparr>auth_outcome = Next, auth_user = Some decoded, auth_logs = []\<rparr>
                    | Inl error \<Rightarrow>
                        if name error = ''TokenExpiredError'' then
                          \<lparr>auth_outcome = Respond 401 [(''message'', ''Token expired''),
                                                       (''code'', ''TOKEN_EXPIRED'')],
                           auth_user = None, auth_logs = []\<rparr>
                        else if name error = ''JsonWebTokenError'' then
                          \<lparr>auth_outcome = Respond 401 [(''message'', ''Invalid token'')],
                           auth_user = None,
                           auth_logs = [\<lparr>severity = Warn, message = ''JWT verification failed'',
                                         meta = [(''error'', JStr (error_message error)),
                                                 (''ip'', JStr (ip req))]\<rparr>]\<rparr>
                        else if name error = ''NotBeforeError'' then
                          \<lparr>auth_outcome = Respond 401 [(''message'', ''Token not yet valid'')],
                           auth_user = None, auth_logs = []\<rparr>
                        else
                          \<lparr>auth_outcome = Respond 401 [(''message'', ''Authentication failed'')],
                           auth_user = None,
                           auth_logs = [\<lparr>severity = Error, message = ''Authentication error'',
                                         meta = [(''error'', JStr (error_message error))]\<rparr>]\<rparr>)))"

subsection \<open>The token library\<close>

text \<open>
  A token as the verifier sees it once its three parts are decoded: the algorithm named
  in its header (chosen by whoever made the token), the algorithm and the key its
  signature was really made under (\<open>none\<close> for an unsigned token), and its claims.
\<close>

record jwt =
  header_alg :: string
  signed_alg :: string
  signed_key :: string
  claims :: payload

text \<open>
  Modelled from the spec: \<^verbatim>\<open>jwt.verify\<close> of the \<^verbatim>\<open>jsonwebtoken\<close> package, which the
  middleware calls and whose code is not among the repository's sources. It follows
  transitions 2 and 3 of the specification's token verifier: a malformed token, a header
  algorithm outside the pinned list, or a signature that does not verify under the pinned
  algorithm and the configured secret is an invalid token (\<^verbatim>\<open>JsonWebTokenError\<close>); then
  an expired token is \<^verbatim>\<open>TokenExpiredError\<close> and a token whose activation time lies ahead
  is \<^verbatim>\<open>NotBeforeError\<close>; otherwise the payload is returned. \<open>decode\<close> says which strings
  are well-formed tokens and what they carry, \<open>clock\<close> is the current time in seconds. A
  signature made under one algorithm and key verifies under no other.
\<close>

definition expired :: "payload \<Rightarrow> int \<Rightarrow> bool" where
  "expired p clock = (case p ''exp'' of Some (JNum e) \<Rightarrow> e \<le> clock | _ \<Rightarrow> False)"

definition not_yet_valid :: "payload \<Rightarrow> int \<Rightarrow> bool" where
  "not_yet_valid p clock = (case p ''nbf'' of Some (JNum n) \<Rightarrow> clock < n | _ \<Rightarrow> False)"

definition jwt_verify :: "(string \<rightharpoonup> jwt) \<Rightarrow> int \<Rightarrow> verifier" where
  "jwt_verify decode clock token secret opts =
     (case decode token of
        None \<Rightarrow> Inl \<lparr>name = ''JsonWebTokenError'', error_message = ''jwt malformed''\<rparr>
      | Some t \<Rightarrow>
          (case secret of
             None \<Rightarrow> Inl \<lparr>name = ''JsonWebTokenError'',
                          error_message = ''secret or public key must be provided''\<rparr>
           | Some k \<Rightarrow>
               if header_alg t \<notin> set (algorithms opts) then
                 Inl \<lparr>name = ''JsonWebTokenError'', error_message = ''invalid algorithm''\<rparr>
               else if signed_alg t \<noteq> header_alg t \<or> signed_key t \<noteq> k then
                 Inl \<lparr>name = ''JsonWebTokenError'', error_message = ''invalid signature''\<rparr>
               else if expired (claims t) clock then
                 Inl \<lparr>name = ''TokenExpiredError'', error_message = ''jwt expired''\<rparr>
               else if not_yet_valid (claims t) clock then
                 Inl \<lparr>name = ''NotBeforeError'', error_message = ''jwt not active''\<rparr>
               else Inr (claims t)))"

section \<open>Temporary credentials (the password utility)\<close>

subsection \<open>The random source\<close>

text \<open>
  \<^verbatim>\<open>crypto.randomInt(0, max)\<close> returns some integer of \<open>[0, max)\<close> when \<open>0 < max\<close> and throws
  a \<^verbatim>\<open>RangeError\<close> otherwise. Which integer it returns is the environment's choice. The
  choices of one run are an infinite tape of draws: each call reads the head of the tape,
  reduced modulo the bound, and leaves the rest, so that every integer of the range is
  returned under some tape and no other value ever is.
\<close>

datatype error = RangeError

type_synonym entropy = "nat \<Rightarrow> nat"

definition secureRandomInt :: "int \<Rightarrow> entropy \<Rightarrow> error + (int \<times> entropy)" where
  "secureRandomInt maxv e =
     (if maxv \<le> 0 then Inl RangeError else Inr (int (e 0) mod maxv, e \<circ> Suc))"

subsection \<open>\<^verbatim>\<open>secureShuffle\<close>\<close>

text \<open>
  The loop \<^verbatim>\<open>for (let i = arr.length - 1; i > 0; i--)\<close> with its body: draw \<open>j\<close>, then
  swap \<^verbatim>\<open>arr[i]\<close> and \<^verbatim>\<open>arr[j]\<close> (both right-hand values are read before either
  position is written). The indices stay inside the array, \<open>j \<le> i < length arr\<close>.
\<close>

function shuffle_loop :: "int \<Rightarrow> 'a list \<Rightarrow> entropy \<Rightarrow> error + ('a list \<times> entropy)" where
  "shuffle_loop i arr e =
     (if 0 < i then
        (case secureRandomInt (i + 1) e of
           Inl err \<Rightarrow> Inl err
         | Inr (j, e') \<Rightarrow>
             shuffle_loop (i - 1) (arr[nat i := arr ! nat j, nat j := arr ! nat i]) e')
      else Inr (arr, e))"
  by pat_completeness auto
termination
  by (relation "measure (\<lambda>(i, arr, e). nat i)") auto

declare shuffle_loop.simps [simp del]

definition secureShuffle :: "'a list \<Rightarrow> entropy \<Rightarrow> error + ('a list \<times> entropy)" where
  "secureShuffle array e = shuffle_loop (int (length array) - 1) array e"

text \<open>
  Fisher--Yates as the specification words it: for the indices from the last down to 1,
  draw the partner with \<^verbatim>\<open>secureRandomInt(i + 1)\<close> and swap.
\<close>

definition fisher_yates_step :: "nat \<Rightarrow> 'a list \<times> entropy \<Rightarrow> 'a list \<times> entropy" where
  "fisher_yates_step i s =
     (case s of (arr, e) \<Rightarrow>
        (case secureRandomInt (int i + 1) e of
           Inr (j, e') \<Rightarrow> (arr[i := arr ! nat j, nat j := arr ! i], e')
         | Inl err \<Rightarrow> (arr, e)))"

definition fisher_yates :: "'a list \<Rightarrow> entropy \<Rightarrow> 'a list \<times> entropy" where
  "fisher_yates arr e = fold fisher_yates_step (rev [1..<length arr]) (arr, e)"

subsection \<open>\<^verbatim>\<open>generateTempPassword\<close>\<close>

definition uppercase :: string where
  "uppercase = ''ABCDEFGHIJKLMNOPQRSTUVWXYZ''"

definition lowercase :: string where
  "lowercase = ''abcdefghijklmnopqrstuvwxyz''"

definition numbers :: string where
  "numbers = ''0123456789''"

definition symbols :: string where
  "symbols = ''!@#$%^&*''"

definition allChars :: string where
  "allChars = uppercase @ lowercase @ numbers @ symbols"

text \<open>\<^verbatim>\<open>s.charAt(k)\<close>: the one-character string at index \<open>k\<close>, the empty string out of range.\<close>

definition charAt :: "string \<Rightarrow> int \<Rightarrow> string" where
  "charAt s k = (if 0 \<le> k \<and> k < int (length s) then [s ! nat k] else [])"

text \<open>\<^verbatim>\<open>s.split('')\<close> and \<^verbatim>\<open>arr.join('')\<close>.\<close>

definition split_chars :: "string \<Rightarrow> string list" where
  "split_chars s = map (\<lambda>c. [c]) s"

definition join :: "string list \<Rightarrow> string" where
  "join arr = concat arr"

text \<open>The loop \<^verbatim>\<open>for (let i = 4; i < length; i++)\<close> that fills the rest.\<close>

function fill_loop :: "int \<Rightarrow> int \<Rightarrow> string \<Rightarrow> entropy \<Rightarrow> error + (string \<times> entropy)" where
  "fill_loop i len password e =
     (if i < len then
        (case secureRandomInt (int (length allChars)) e of
           Inl err \<Rightarrow> Inl err
         | Inr (k, e') \<Rightarrow> fill_loop (i + 1) len (password @ charAt allChars k) e')
      else Inr (password, e))"
  by pat_completeness auto
termination
  by (relation "measure (\<lambda>(i, len, password, e). nat (len - i))") auto

declare fill_loop.simps [simp del]

text \<open>
  \<^verbatim>\<open>generateTempPassword(length = 12)\<close>: \<open>None\<close> is the call without an argument. The
  result is the returned string and the tape left over, or the error thrown.
\<close>

definition generateTempPassword :: "int option \<Rightarrow> entropy \<Rightarrow> error + (string \<times> entropy)" where
  "generateTempPassword length_arg e0 =
     (let len = (case length_arg of None \<Rightarrow> 12 | Some n \<Rightarrow> n) in
      case secureRandomInt (int (length uppercase)) e0 of
        Inl err \<Rightarrow> Inl err
      | Inr (k1, e1) \<Rightarrow>
      (case secureRandomInt (int (length lowercase)) e1 of
        Inl err \<Rightarrow> Inl err
      | Inr (k2, e2) \<Rightarrow>
      (case secureRandomInt (int (length numbers)) e2 of
        Inl err \<Rightarrow> Inl err
      | Inr (k3, e3) \<Rightarrow>
      (case secureRandomInt (int (length symbols)) e3 of
        Inl err \<Rightarrow> Inl err
      | Inr (k4, e4) \<Rightarrow>
      (case fill_loop 4 len
              ([] @ charAt uppercase k1 @ charAt lowercase k2 @ charAt numbers k3
                  @ charAt symbols k4) e4 of
        Inl err \<Rightarrow> Inl err
      | Inr (password, e5) \<Rightarrow>
      (case secureShuffle (split_chars password) e5 of
        Inl err \<Rightarrow> Inl err
      | Inr (arr, e6) \<Rightarrow> Inr (join arr, e6)))))))"

text \<open>What the caller of a function gets: the value returned or the error thrown.\<close>

definition returned :: "error + ('a \<times> entropy) \<Rightarrow> error + 'a" where
  "returned r = (case r of Inl err \<Rightarrow> Inl err | Inr (v, e) \<Rightarrow> Inr v)"

section \<open>Properties of the role authorizer\<close>

subsection \<open>Reads of the rank table\<close>

lemma or_zero_get:
  "or_zero (ROLE_HIERARCHY_get r) =
     (if r \<in> set Object_prototype_names then Inherited r else Level (rank r))"
  by (simp add: or_zero_def ROLE_HIERARCHY_get_def ROLE_HIERARCHY_def
      Object_prototype_names_def rank_def)

lemma closed_roles_not_inherited: "set closed_roles \<inter> set Object_prototype_names = {}"
  by (simp add: closed_roles_def Object_prototype_names_def)

lemma rank_nonneg: "0 \<le> rank r"
  by (simp add: rank_def)

lemma rank_closed: "r \<in> set closed_roles \<Longrightarrow> 1 \<le> rank r"
  by (auto simp: closed_roles_def rank_def)

lemma rank_unrecognized: "r \<notin> set closed_roles \<Longrightarrow> rank r = 0"
  by (simp add: closed_roles_def rank_def)

subsection \<open>\<^verbatim>\<open>Math.min\<close> over the mapped levels\<close>

lemma foldl_min2_NaN: "foldl min2 NaN xs = NaN"
  by (induction xs) simp_all

lemma min2_NaN_right: "min2 a NaN = NaN"
  by (cases a) simp_all

lemma foldl_min2_has_NaN: "NaN \<in> set xs \<Longrightarrow> foldl min2 acc xs = NaN"
  by (induction xs arbitrary: acc) (auto simp: foldl_min2_NaN min2_NaN_right)

lemma foldl_min2_Fin:
  "foldl min2 (Fin a) (map (\<lambda>r. Fin (f r)) xs) = Fin (Min (insert a (f ` set xs)))"
proof (induction xs arbitrary: a)
  case Nil
  then show ?case by simp
next
  case (Cons x xs)
  have "Min (insert (min a (f x)) (f ` set xs)) = Min (insert a (insert (f x) (f ` set xs)))"
    by (cases "set xs = {}") (simp_all add: min.assoc)
  with Cons show ?case by simp
qed

lemma Math_min_Fin:
  "xs \<noteq> [] \<Longrightarrow> Math_min (map (\<lambda>r. Fin (f r)) xs) = Fin (Min (f ` set xs))"
  by (cases xs) (simp_all add: Math_min_def foldl_min2_Fin)

lemma requiredLevel_plain:
  assumes "set allowedRoles \<inter> set Object_prototype_names = {}" "allowedRoles \<noteq> []"
  shows "requiredLevel allowedRoles = Fin (Min (rank ` set allowedRoles))"
proof -
  have "map (\<lambda>r. ToNumber (or_zero (ROLE_HIERARCHY_get r))) allowedRoles
        = map (\<lambda>r. Fin (rank r)) allowedRoles"
    using assms(1) by (intro map_cong) (auto simp: or_zero_get)
  then have "requiredLevel allowedRoles = Math_min (map (\<lambda>r. Fin (rank r)) allowedRoles)"
    unfolding requiredLevel_def by (rule arg_cong)
  also have "\<dots> = Fin (Min (rank ` set allowedRoles))"
    using assms(2) by (rule Math_min_Fin)
  finally show ?thesis .
qed

lemma requiredLevel_empty: "requiredLevel [] = PosInf"
  by (simp add: requiredLevel_def Math_min_def)

lemma requiredLevel_inherited:
  assumes "r \<in> set allowedRoles" "r \<in> set Object_prototype_names"
  shows "requiredLevel allowedRoles = NaN"
proof -
  have "NaN \<in> set (map (\<lambda>r. ToNumber (or_zero (ROLE_HIERARCHY_get r))) allowedRoles)"
    using assms by (force simp: or_zero_get)
  then show ?thesis
    unfolding requiredLevel_def Math_min_def by (rule foldl_min2_has_NaN)
qed

subsection \<open>Strict policies\<close>

text \<open>
  Claim C1. For an authenticated principal and a policy with \<open>strict = true\<close>, the
  authorizer lets the request through exactly when the principal's role is a member of
  \<open>allowedRoles\<close>; otherwise it answers 403 with the strict-mode message
  (\<open>Deny(StrictRoleMismatch)\<close>). The rank table plays no part: in the
  specification's instance, an \<open>admin\<close> against \<open>allowedRoles = {patient}\<close> is denied.
\<close>

theorem strict_exact_membership:
  assumes "req_user req = Some u" and "strict opts = Some True"
  shows "outcome (authorizeRole allowedRoles opts now req) =
           (if role u \<in> set allowedRoles then Next else strict_denied)"
  using assms by (simp add: authorizeRole_def Let_def)

theorem strict_exact_membership_witness:
  "outcome (authorizeRole [''patient''] \<lparr>strict = Some True\<rparr> ''2024-05-01T08:00:00.000Z''
      \<lparr>req_user = Some \<lparr>userId = JNum 1, id' = JUndefined, username = JStr ''root'',
                          role = ''admin''\<rparr>,
       originalUrl = ''/api/patient-portal/me'', req_method = ''GET''\<rparr>)
   = Respond 403 [(''message'', ''Access denied. This endpoint requires specific role access.'')]"
  using strict_exact_membership [of
      "\<lparr>req_user = Some \<lparr>userId = JNum 1, id' = JUndefined, username = JStr ''root'',
                          role = ''admin''\<rparr>,
       originalUrl = ''/api/patient-portal/me'', req_method = ''GET''\<rparr>"
      "\<lparr>userId = JNum 1, id' = JUndefined, username = JStr ''root'', role = ''admin''\<rparr>"
      "\<lparr>strict = Some True\<rparr>" "[''patient'']" "''2024-05-01T08:00:00.000Z''"]
  by (simp add: strict_denied_def)

subsection \<open>Hierarchy policies\<close>

text \<open>
  Claim C2, as stated, covers every principal and every non-strict policy. Two inputs
  show that the decision is not always the comparison of the rank with the minimum rank.
  Against \<open>{dentist, toString}\<close> the minimum rank is 0 and \<open>staff\<close> has rank 2, yet the
  level mapped from \<open>toString\<close> is a function inherited from \<^verbatim>\<open>Object.prototype\<close>,
  \<^verbatim>\<open>Math.min\<close> gives \<^verbatim>\<open>NaN\<close>, and \<open>staff\<close> is denied. Against the single unrecognized name
  \<open>recptionist\<close> the required level is 0, yet a principal whose role is \<open>valueOf\<close>
  (rank 0) is denied, because its own level converts to \<^verbatim>\<open>NaN\<close>.
\<close>

theorem hierarchy_minimum_rank_counterexample:
  "''staff'' \<notin> set [''dentist'', ''toString'']
   \<and> Min (rank ` set [''dentist'', ''toString'']) = 0 \<and> rank ''staff'' = 2
   \<and> requiredLevel [''dentist'', ''toString''] = NaN
   \<and> outcome (authorizeRole [''dentist'', ''toString''] \<lparr>strict = Some False\<rparr>
        ''2024-05-01T08:00:00.000Z''
        \<lparr>req_user = Some \<lparr>userId = JNum 7, id' = JUndefined, username = JStr ''sam'',
                            role = ''staff''\<rparr>,
         originalUrl = ''/api/treatments'', req_method = ''GET''\<rparr>)
     = Respond 403 [(''message'', ''Access denied. Insufficient permissions.'')]
   \<and> ''valueOf'' \<notin> set [''recptionist'']
   \<and> Min (rank ` set [''recptionist'']) = 0 \<and> rank ''valueOf'' = 0
   \<and> requiredLevel [''recptionist''] = Fin 0
   \<and> outcome (authorizeRole [''recptionist''] \<lparr>strict = Some False\<rparr>
        ''2024-05-01T08:00:00.000Z''
        \<lparr>req_user = Some \<lparr>userId = JNum 7, id' = JUndefined, username = JStr ''sam'',
                            role = ''valueOf''\<rparr>,
         originalUrl = ''/api/treatments'', req_method = ''GET''\<rparr>)
     = Respond 403 [(''message'', ''Access denied. Insufficient permissions.'')]"
  by (simp add: authorizeRole_def requiredLevel_def Math_min_def ROLE_HIERARCHY_get_def
      ROLE_HIERARCHY_def Object_prototype_names_def or_zero_def insufficient_def rank_def)

text \<open>
  Claim C2, amended. For an authenticated principal whose role is not a member of
  \<open>allowedRoles\<close> and a policy with \<open>strict = false\<close> (the flag absent or false), where
  \<open>allowedRoles\<close> holds no name that \<^verbatim>\<open>Object.prototype\<close> defines, and where the
  principal's role is not such a name or \<open>allowedRoles\<close> lies within the five roles: the
  authorizer computes \<open>requiredLevel\<close> as the minimum rank over \<open>allowedRoles\<close> and lets
  the request through exactly when the rank of the principal's role is at least that
  level; otherwise it answers 403 with the insufficient-permissions message
  (\<open>Deny(InsufficientRole)\<close>). So for a policy declared over the five roles this holds
  for every role string. An empty \<open>allowedRoles\<close> has no minimum: \<^verbatim>\<open>Math.min()\<close> is
  \<^verbatim>\<open>Infinity\<close> and every principal is denied. In the specification's instance, against
  \<open>{manager, dentist}\<close> the level is 3, \<open>admin\<close> passes and \<open>staff\<close> is denied.
\<close>

theorem hierarchy_minimum_rank:
  assumes "req_user req = Some u"
    and "strict opts = None \<or> strict opts = Some False"
    and "role u \<notin> set allowedRoles"
    and "set allowedRoles \<inter> set Object_prototype_names = {}"
    and "role u \<notin> set Object_prototype_names \<or> set allowedRoles \<subseteq> set closed_roles"
  shows "requiredLevel allowedRoles =
           (if allowedRoles = [] then PosInf else Fin (Min (rank ` set allowedRoles)))
         \<and> outcome (authorizeRole allowedRoles opts now req) =
           (if allowedRoles \<noteq> [] \<and> Min (rank ` set allowedRoles) \<le> rank (role u)
            then Next else insufficient)"
proof -
  have req: "requiredLevel allowedRoles =
           (if allowedRoles = [] then PosInf else Fin (Min (rank ` set allowedRoles)))"
    using assms(4) by (simp add: requiredLevel_empty requiredLevel_plain)
  have flag: "(case strict opts of None \<Rightarrow> False | Some b \<Rightarrow> b) = False"
    using assms(2) by auto
  show ?thesis
  proof (cases "role u \<in> set Object_prototype_names")
    case False
    then have lvl: "ToNumber (or_zero (ROLE_HIERARCHY_get (role u))) = Fin (rank (role u))"
      by (simp add: or_zero_get)
    show ?thesis
      using assms(1,3) by (simp add: authorizeRole_def Let_def flag lvl req)
  next
    case True
    then have lvl: "ToNumber (or_zero (ROLE_HIERARCHY_get (role u))) = NaN"
      by (simp add: or_zero_get)
    have sub: "set allowedRoles \<subseteq> set closed_roles"
      using True assms(5) by simp
    have "role u \<notin> set closed_roles"
      using True closed_roles_not_inherited by auto
    then have r0: "rank (role u) = 0"
      by (rule rank_unrecognized)
    have high: "\<not> (allowedRoles \<noteq> [] \<and> Min (rank ` set allowedRoles) \<le> rank (role u))"
    proof
      assume a: "allowedRoles \<noteq> [] \<and> Min (rank ` set allowedRoles) \<le> rank (role u)"
      then have "Min (rank ` set allowedRoles) \<in> rank ` set allowedRoles"
        by (intro Min_in) simp_all
      then have "1 \<le> Min (rank ` set allowedRoles)"
        using sub rank_closed by auto
      then show False
        using a r0 by linarith
    qed
    have no: "\<not> js_ge NaN (requiredLevel allowedRoles)"
      by simp
    have out: "outcome (authorizeRole allowedRoles opts now req) = insufficient"
      using assms(1,3) no by (simp add: authorizeRole_def Let_def flag lvl)
    show ?thesis
      using high by (auto simp: out req)
  qed
qed

theorem hierarchy_minimum_rank_witness:
  "requiredLevel [''manager'', ''dentist''] = Fin 3
   \<and> outcome (authorizeRole [''manager'', ''dentist''] \<lparr>strict = Some False\<rparr> ''2024-05-01T08:00:00.000Z''
      \<lparr>req_user = Some \<lparr>userId = JNum 7, id' = JUndefined, username = JStr ''sam'', role = ''admin''\<rparr>,
       originalUrl = ''/api/treatments'', req_method = ''GET''\<rparr>) = Next
   \<and> outcome (authorizeRole [''manager'', ''dentist''] \<lparr>strict = None\<rparr> ''2024-05-01T08:00:00.000Z''
      \<lparr>req_user = Some \<lparr>userId = JNum 7, id' = JUndefined, username = JStr ''sam'', role = ''staff''\<rparr>,
       originalUrl = ''/api/treatments'', req_method = ''GET''\<rparr>)
     = Respond 403 [(''message'', ''Access denied. Insufficient permissions.'')]
   \<and> outcome (authorizeRole [''manager'', ''dentist''] \<lparr>strict = None\<rparr> ''2024-05-01T08:00:00.000Z''
      \<lparr>req_user = Some \<lparr>userId = JNum 7, id' = JUndefined, username = JStr ''sam'', role = ''toString''\<rparr>,
       originalUrl = ''/api/treatments'', req_method = ''GET''\<rparr>)
     = Respond 403 [(''message'', ''Access denied. Insufficient permissions.'')]"
  using hierarchy_minimum_rank [of
      "\<lparr>req_user = Some \<lparr>userId = JNum 7, id' = JUndefined, username = JStr ''sam'', role = ''admin''\<rparr>,
       originalUrl = ''/api/treatments'', req_method = ''GET''\<rparr>"
      "\<lparr>userId = JNum 7, id' = JUndefined, username = JStr ''sam'', role = ''admin''\<rparr>" "\<lparr>strict = Some False\<rparr>" "[''manager'', ''dentist'']" "''2024-05-01T08:00:00.000Z''"]
    hierarchy_minimum_rank [of
      "\<lparr>req_user = Some \<lparr>userId = JNum 7, id' = JUndefined, username = JStr ''sam'', role = ''staff''\<rparr>,
       originalUrl = ''/api/treatments'', req_method = ''GET''\<rparr>"
      "\<lparr>userId = JNum 7, id' = JUndefined, username = JStr ''sam'', role = ''staff''\<rparr>" "\<lparr>strict = None\<rparr>" "[''manager'', ''dentist'']" "''2024-05-01T08:00:00.000Z''"]
    hierarchy_minimum_rank [of
      "\<lparr>req_user = Some \<lparr>userId = JNum 7, id' = JUndefined, username = JStr ''sam'', role = ''toString''\<rparr>,
       originalUrl = ''/api/treatments'', req_method = ''GET''\<rparr>"
      "\<lparr>userId = JNum 7, id' = JUndefined, username = JStr ''sam'', role = ''toString''\<rparr>" "\<lparr>strict = None\<rparr>" "[''manager'', ''dentist'']" "''2024-05-01T08:00:00.000Z''"]
  by (simp add: rank_def insufficient_def Object_prototype_names_def closed_roles_def)


subsection \<open>Roles outside the closed set\<close>

text \<open>
  Claim C3, as stated, asks that every role string outside the five roles is given
  rank 0. The read \<^verbatim>\<open>ROLE_HIERARCHY[userRole] || 0\<close> does not do that for a name that
  \<^verbatim>\<open>Object.prototype\<close> defines: for \<open>constructor\<close> it yields the inherited function,
  which is truthy, so \<^verbatim>\<open>|| 0\<close> keeps it.
\<close>

theorem unrecognized_role_rank_counterexample:
  "''constructor'' \<notin> set closed_roles
   \<and> ROLE_HIERARCHY_get ''constructor'' = Some (Inherited ''constructor'')
   \<and> or_zero (ROLE_HIERARCHY_get ''constructor'') \<noteq> Level 0"
  by (simp add: closed_roles_def ROLE_HIERARCHY_get_def ROLE_HIERARCHY_def
      Object_prototype_names_def or_zero_def)

text \<open>
  Claim C3, amended. A role string outside the five roles that \<^verbatim>\<open>Object.prototype\<close> does
  not define is given rank 0; and every principal whose role string is outside the five
  roles, whatever the name, is denied (403, insufficient permissions) by every non-strict
  policy whose \<open>allowedRoles\<close> all lie within the five roles: the unrecognized role never
  opens a path that grants access.
\<close>

theorem unrecognized_role_denied:
  assumes "req_user req = Some u"
    and "strict opts = None \<or> strict opts = Some False"
    and "role u \<notin> set closed_roles"
    and "set allowedRoles \<subseteq> set closed_roles"
  shows "(role u \<notin> set Object_prototype_names \<longrightarrow>
            or_zero (ROLE_HIERARCHY_get (role u)) = Level 0)
         \<and> outcome (authorizeRole allowedRoles opts now req) = insufficient"
proof -
  have notin: "role u \<notin> set allowedRoles"
    using assms(3,4) by auto
  have plain: "set allowedRoles \<inter> set Object_prototype_names = {}"
    using assms(4) closed_roles_not_inherited by auto
  have flag: "(case strict opts of None \<Rightarrow> False | Some b \<Rightarrow> b) = False"
    using assms(2) by auto
  have req: "requiredLevel allowedRoles = PosInf \<or> (\<exists>m\<ge>1. requiredLevel allowedRoles = Fin m)"
  proof (cases "allowedRoles = []")
    case True
    then show ?thesis by (simp add: requiredLevel_empty)
  next
    case False
    then have "Min (rank ` set allowedRoles) \<in> rank ` set allowedRoles"
      by (intro Min_in) simp_all
    then have "1 \<le> Min (rank ` set allowedRoles)"
      using assms(4) rank_closed by auto
    then show ?thesis
      using requiredLevel_plain [OF plain False] by simp
  qed
  have lvl: "ToNumber (or_zero (ROLE_HIERARCHY_get (role u))) = Fin 0
             \<or> ToNumber (or_zero (ROLE_HIERARCHY_get (role u))) = NaN"
    using assms(3) by (simp add: or_zero_get rank_unrecognized)
  have no: "\<not> js_ge (ToNumber (or_zero (ROLE_HIERARCHY_get (role u)))) (requiredLevel allowedRoles)"
    using req lvl by auto
  have zero: "role u \<notin> set Object_prototype_names \<longrightarrow>
            or_zero (ROLE_HIERARCHY_get (role u)) = Level 0"
    using assms(3) by (simp add: or_zero_get rank_unrecognized)
  show ?thesis
    using assms(1) notin no zero by (simp add: authorizeRole_def Let_def flag)
qed

theorem unrecognized_role_denied_witness:
  "or_zero (ROLE_HIERARCHY_get ''receptionist'') = Level 0
   \<and> outcome (authorizeRole [''patient'', ''staff''] \<lparr>strict = None\<rparr> ''2024-05-01T08:00:00.000Z''
      \<lparr>req_user = Some \<lparr>userId = JNum 7, id' = JUndefined, username = JStr ''sam'', role = ''receptionist''\<rparr>,
       originalUrl = ''/api/treatments'', req_method = ''GET''\<rparr>)
     = Respond 403 [(''message'', ''Access denied. Insufficient permissions.'')]
   \<and> outcome (authorizeRole [''patient''] \<lparr>strict = Some False\<rparr> ''2024-05-01T08:00:00.000Z''
      \<lparr>req_user = Some \<lparr>userId = JNum 7, id' = JUndefined, username = JStr ''sam'', role = ''constructor''\<rparr>,
       originalUrl = ''/api/treatments'', req_method = ''GET''\<rparr>)
     = Respond 403 [(''message'', ''Access denied. Insufficient permissions.'')]"
  using unrecognized_role_denied [of
      "\<lparr>req_user = Some \<lparr>userId = JNum 7, id' = JUndefined, username = JStr ''sam'', role = ''receptionist''\<rparr>,
       originalUrl = ''/api/treatments'', req_method = ''GET''\<rparr>"
      "\<lparr>userId = JNum 7, id' = JUndefined, username = JStr ''sam'', role = ''receptionist''\<rparr>" "\<lparr>strict = None\<rparr>" "[''patient'', ''staff'']" "''2024-05-01T08:00:00.000Z''"]
    unrecognized_role_denied [of
      "\<lparr>req_user = Some \<lparr>userId = JNum 7, id' = JUndefined, username = JStr ''sam'', role = ''constructor''\<rparr>,
       originalUrl = ''/api/treatments'', req_method = ''GET''\<rparr>"
      "\<lparr>userId = JNum 7, id' = JUndefined, username = JStr ''sam'', role = ''constructor''\<rparr>" "\<lparr>strict = Some False\<rparr>" "[''patient'']" "''2024-05-01T08:00:00.000Z''"]
  by (simp add: closed_roles_def insufficient_def Object_prototype_names_def)

subsection \<open>Unrecognized names in a route declaration\<close>

text \<open>
  Claim C4, as stated, says that one name outside the five roles in \<open>allowedRoles\<close> brings
  \<open>requiredLevel\<close> to 0 and lets every authenticated principal through. Two inputs show
  otherwise. When the unrecognized name is one \<^verbatim>\<open>Object.prototype\<close> defines, the mapped
  level is the inherited function, \<^verbatim>\<open>Math.min\<close> gives \<^verbatim>\<open>NaN\<close>, and a \<open>staff\<close> principal
  is denied. When the principal's own role is such a name, its level converts to
  \<^verbatim>\<open>NaN\<close> and it is denied although \<open>requiredLevel\<close> is 0.
\<close>

theorem misspelled_role_counterexample:
  "requiredLevel [''admin'', ''constructor''] = NaN
   \<and> outcome (authorizeRole [''admin'', ''constructor''] \<lparr>strict = None\<rparr> ''2024-05-01T08:00:00.000Z''
      \<lparr>req_user = Some \<lparr>userId = JNum 7, id' = JUndefined, username = JStr ''sam'', role = ''staff''\<rparr>,
       originalUrl = ''/api/treatments'', req_method = ''GET''\<rparr>)
     = Respond 403 [(''message'', ''Access denied. Insufficient permissions.'')]
   \<and> requiredLevel [''admn''] = Fin 0
   \<and> outcome (authorizeRole [''admn''] \<lparr>strict = None\<rparr> ''2024-05-01T08:00:00.000Z''
      \<lparr>req_user = Some \<lparr>userId = JNum 7, id' = JUndefined, username = JStr ''sam'', role = ''constructor''\<rparr>,
       originalUrl = ''/api/treatments'', req_method = ''GET''\<rparr>)
     = Respond 403 [(''message'', ''Access denied. Insufficient permissions.'')]"
  by (simp add: authorizeRole_def requiredLevel_def Math_min_def ROLE_HIERARCHY_get_def
      ROLE_HIERARCHY_def Object_prototype_names_def or_zero_def insufficient_def)

text \<open>
  Claim C4, amended. For a non-strict policy whose \<open>allowedRoles\<close> holds at least one name
  outside the five roles and no name that \<^verbatim>\<open>Object.prototype\<close> defines, \<open>requiredLevel\<close>
  is 0, and every authenticated principal whose role is not a name that
  \<^verbatim>\<open>Object.prototype\<close> defines is let through, an unrecognized role of rank 0 included:
  one misspelled role name opens the route to them all.
\<close>

theorem misspelled_role_fails_open:
  assumes "req_user req = Some u"
    and "strict opts = None \<or> strict opts = Some False"
    and "r \<in> set allowedRoles" and "r \<notin> set closed_roles"
    and "set allowedRoles \<inter> set Object_prototype_names = {}"
    and "role u \<notin> set Object_prototype_names"
  shows "requiredLevel allowedRoles = Fin 0
         \<and> outcome (authorizeRole allowedRoles opts now req) = Next"
proof -
  have ne: "allowedRoles \<noteq> []"
    using assms(3) by auto
  have "Min (rank ` set allowedRoles) \<le> rank r"
    using assms(3) by (intro Min_le) simp_all
  moreover have "Min (rank ` set allowedRoles) \<in> rank ` set allowedRoles"
    using ne by (intro Min_in) simp_all
  then have "0 \<le> Min (rank ` set allowedRoles)"
    using rank_nonneg by auto
  ultimately have m: "Min (rank ` set allowedRoles) = 0"
    using rank_unrecognized [OF assms(4)] by simp
  have req: "requiredLevel allowedRoles = Fin 0"
    using requiredLevel_plain [OF assms(5) ne] m by simp
  have lvl: "ToNumber (or_zero (ROLE_HIERARCHY_get (role u))) = Fin (rank (role u))"
    using assms(6) by (simp add: or_zero_get)
  have flag: "(case strict opts of None \<Rightarrow> False | Some b \<Rightarrow> b) = False"
    using assms(2) by auto
  show ?thesis
    using assms(1) rank_nonneg [of "role u"]
    by (simp add: authorizeRole_def Let_def flag lvl req)
qed

theorem misspelled_role_fails_open_witness:
  "requiredLevel [''admin'', ''manger''] = Fin 0
   \<and> outcome (authorizeRole [''admin'', ''manger''] \<lparr>strict = None\<rparr> ''2024-05-01T08:00:00.000Z''
      \<lparr>req_user = Some \<lparr>userId = JNum 7, id' = JUndefined, username = JStr ''sam'', role = ''patient''\<rparr>,
       originalUrl = ''/api/treatments'', req_method = ''GET''\<rparr>) = Next
   \<and> outcome (authorizeRole [''admin'', ''manger''] \<lparr>strict = None\<rparr> ''2024-05-01T08:00:00.000Z''
      \<lparr>req_user = Some \<lparr>userId = JNum 7, id' = JUndefined, username = JStr ''sam'', role = ''receptionist''\<rparr>,
       originalUrl = ''/api/treatments'', req_method = ''GET''\<rparr>) = Next"
  using misspelled_role_fails_open [of
      "\<lparr>req_user = Some \<lparr>userId = JNum 7, id' = JUndefined, username = JStr ''sam'', role = ''patient''\<rparr>,
       originalUrl = ''/api/treatments'', req_method = ''GET''\<rparr>"
      "\<lparr>userId = JNum 7, id' = JUndefined, username = JStr ''sam'', role = ''patient''\<rparr>" "\<lparr>strict = None\<rparr>" "''manger''" "[''admin'', ''manger'']" "''2024-05-01T08:00:00.000Z''"]
    misspelled_role_fails_open [of
      "\<lparr>req_user = Some \<lparr>userId = JNum 7, id' = JUndefined, username = JStr ''sam'', role = ''receptionist''\<rparr>,
       originalUrl = ''/api/treatments'', req_method = ''GET''\<rparr>"
      "\<lparr>userId = JNum 7, id' = JUndefined, username = JStr ''sam'', role = ''receptionist''\<rparr>" "\<lparr>strict = None\<rparr>" "''manger''" "[''admin'', ''manger'']" "''2024-05-01T08:00:00.000Z''"]
  by (simp add: closed_roles_def Object_prototype_names_def)

section \<open>Properties of token verification\<close>

subsection \<open>The header and the token part\<close>

lemma js_split_no_sep: "sep \<notin> set t \<Longrightarrow> js_split sep t = [t]"
  by (induction t) auto

lemma startsWith_Bearer: "startsWith (''Bearer '' @ t) ''Bearer ''"
  by (simp add: startsWith_def)

lemma token_of_Bearer:
  "CHR '' '' \<notin> set t \<Longrightarrow> at_index (js_split CHR '' '' (''Bearer '' @ t)) 1 = Some t"
  by (simp add: at_index_def js_split_no_sep)

text \<open>
  A header \<^verbatim>\<open>Bearer <token>\<close> whose token has no space and is none of the sentinel
  strings reaches the call of the library, and the rest of the run is decided by what
  that call returns or throws.
\<close>

lemma authenticate_Bearer:
  assumes "authorization req = Some (''Bearer '' @ t)" "CHR '' '' \<notin> set t"
    "t \<noteq> []" "t \<noteq> ''null''" "t \<noteq> ''undefined''"
  shows "authenticate v secret req =
     (case v t secret \<lparr>algorithms = [''HS256''], complete = False\<rparr> of
        Inr decoded \<Rightarrow>
          if \<not> truthy (field decoded ''userId'') \<or> \<not> truthy (field decoded ''role'')
          then
            \<lparr>auth_outcome = Respond 401 [(''message'', ''Invalid token'')],
             auth_user = None,
             auth_logs = [\<lparr>severity = Warn, message = ''Invalid token payload'',
                           meta = [(''userId'', field decoded ''userId'')]\<rparr>]\<rparr>
          else
            \<lparr>auth_outcome = Next, auth_user = Some decoded, auth_logs = []\<rparr>
      | Inl error \<Rightarrow>
          if name error = ''TokenExpiredError'' then
            \<lparr>auth_outcome = Respond 401 [(''message'', ''Token expired''),
                                         (''code'', ''TOKEN_EXPIRED'')],
             auth_user = None, auth_logs = []\<rparr>
          else if name error = ''JsonWebTokenError'' then
            \<lparr>auth_outcome = Respond 401 [(''message'', ''Invalid token'')],
             auth_user = None,
             auth_logs = [\<lparr>severity = Warn, message = ''JWT verification failed'',
                           meta = [(''error'', JStr (error_message error)),
                                   (''ip'', JStr (ip req))]\<rparr>]\<rparr>
          else if name error = ''NotBeforeError'' then
            \<lparr>auth_outcome = Respond 401 [(''message'', ''Token not yet valid'')],
             auth_user = None, auth_logs = []\<rparr>
          else
            \<lparr>auth_outcome = Respond 401 [(''message'', ''Authentication failed'')],
             auth_user = None,
             auth_logs = [\<lparr>severity = Error, message = ''Authentication error'',
                           meta = [(''error'', JStr (error_message error))]\<rparr>]\<rparr>)"
proof -
  define h where "h = ''Bearer '' @ t"
  have hdr: "authorization req = Some h"
    using assms(1) by (simp add: h_def)
  have ne: "h \<noteq> []"
    by (simp add: h_def)
  have pre: "startsWith h ''Bearer ''"
    unfolding h_def by (rule startsWith_Bearer)
  have "at_index (js_split CHR '' '' h) 1 = Some t"
    unfolding h_def using assms(2) by (rule token_of_Bearer)
  then have tok: "at_index (js_split CHR '' '' h) (Suc 0) = Some t"
    by simp
  show ?thesis
    unfolding authenticate_def
    using assms(3,4,5) by (simp add: hdr ne pre tok)
qed

lemma principal_has_claims:
  "auth_user (authenticate v secret req) = Some d \<Longrightarrow>
     truthy (field d ''userId'') \<and> truthy (field d ''role'')
     \<and> auth_outcome (authenticate v secret req) = Next"
  by (auto simp: authenticate_def authentication_required_def
      split: option.splits sum.splits if_splits)

lemma jwt_verify_other_algorithm:
  assumes "decode token = Some t" "signed_alg t \<noteq> ''HS256'' \<or> header_alg t \<noteq> ''HS256''"
  shows "\<exists>m. jwt_verify decode clock token secret \<lparr>algorithms = [''HS256''], complete = False\<rparr>
     = Inl \<lparr>name = ''JsonWebTokenError'', error_message = m\<rparr>"
  using assms by (auto simp: jwt_verify_def split: option.splits)

subsection \<open>Algorithm pinning\<close>

text \<open>
  Claim C5. The middleware calls the library with the one algorithm \<open>HS256\<close> pinned. A
  token presented as \<^verbatim>\<open>Bearer <token>\<close> whose signature was made under any other
  algorithm (\<open>none\<close> included), or whose header names any other algorithm, is answered
  with 401 \<open>Invalid token\<close> and no principal is attached, whatever its claims, the clock
  and the configured secret are. The token is a compact token: it has no space and is
  not one of the sentinel strings of the presence check.
\<close>

theorem algorithm_pinned:
  assumes "authorization req = Some (''Bearer '' @ token)"
    and "CHR '' '' \<notin> set token"
    and "token \<noteq> []" and "token \<noteq> ''null''" and "token \<noteq> ''undefined''"
    and "decode token = Some t"
    and "signed_alg t \<noteq> ''HS256'' \<or> header_alg t \<noteq> ''HS256''"
  shows "auth_outcome (authenticate (jwt_verify decode clock) secret req)
           = Respond 401 [(''message'', ''Invalid token'')]
         \<and> auth_user (authenticate (jwt_verify decode clock) secret req) = None"
proof -
  obtain m where "jwt_verify decode clock token secret \<lparr>algorithms = [''HS256''], complete = False\<rparr>
     = Inl \<lparr>name = ''JsonWebTokenError'', error_message = m\<rparr>"
    using jwt_verify_other_algorithm [of decode token t clock secret] assms(6,7) by blast
  then show ?thesis
    by (simp add: authenticate_Bearer [OF assms(1-5)])
qed

theorem algorithm_pinned_witness:
  "auth_outcome (authenticate (jwt_verify [''e30.e30.'' \<mapsto>
        \<lparr>header_alg = ''none'', signed_alg = ''none'', signed_key = [],
         claims = [''userId'' \<mapsto> JNum 1, ''role'' \<mapsto> JStr ''admin'']\<rparr>] 1700000000)
      (Some ''s3cret'') \<lparr>authorization = Some ''Bearer e30.e30.'', ip = ''10.0.0.9''\<rparr>)
     = Respond 401 [(''message'', ''Invalid token'')]
   \<and> auth_user (authenticate (jwt_verify [''e30.e30.'' \<mapsto>
        \<lparr>header_alg = ''none'', signed_alg = ''none'', signed_key = [],
         claims = [''userId'' \<mapsto> JNum 1, ''role'' \<mapsto> JStr ''admin'']\<rparr>] 1700000000)
      (Some ''s3cret'') \<lparr>authorization = Some ''Bearer e30.e30.'', ip = ''10.0.0.9''\<rparr>)
     = None"
  using algorithm_pinned [of
      "\<lparr>authorization = Some ''Bearer e30.e30.'', ip = ''10.0.0.9''\<rparr>" "''e30.e30.''"
      "[''e30.e30.'' \<mapsto>
        \<lparr>header_alg = ''none'', signed_alg = ''none'', signed_key = [],
         claims = [''userId'' \<mapsto> JNum 1, ''role'' \<mapsto> JStr ''admin'']\<rparr>]"
      "\<lparr>header_alg = ''none'', signed_alg = ''none'', signed_key = [],
         claims = [''userId'' \<mapsto> JNum 1, ''role'' \<mapsto> JStr ''admin'']\<rparr>"
      1700000000 "Some ''s3cret''"]
  by simp

subsection \<open>Claim completeness\<close>

text \<open>
  Claim C9, as stated, covers every token whose signature verifies and whose payload
  lacks a claim. The library checks the validity period before it returns the payload,
  so such a token that is also expired never reaches the completeness check: it is
  answered with \<open>Token expired\<close> and nothing is logged. Here the token is signed under
  \<open>HS256\<close> with the configured secret, carries no role, and expired at 100; the clock is
  at 200.
\<close>

theorem incomplete_claims_counterexample:
  "authenticate (jwt_verify [''a.b.c'' \<mapsto>
        \<lparr>header_alg = ''HS256'', signed_alg = ''HS256'', signed_key = ''s3cret'',
         claims = [''userId'' \<mapsto> JNum 7, ''exp'' \<mapsto> JNum 100]\<rparr>] 200)
      (Some ''s3cret'') \<lparr>authorization = Some ''Bearer a.b.c'', ip = ''10.0.0.1''\<rparr>
   = \<lparr>auth_outcome = Respond 401 [(''message'', ''Token expired''),
                                   (''code'', ''TOKEN_EXPIRED'')],
      auth_user = None, auth_logs = []\<rparr>"
  by (simp add: authenticate_def startsWith_def at_index_def jwt_verify_def expired_def)

text \<open>
  Claim C9, amended. A principal is attached only when the library returned it as the
  payload of the token taken from the header and it holds both a user identifier and a
  role; so a token whose payload lacks either, and a token the library rejects (an
  expired one among them), never produces a principal. When the library accepts the
  presented token (its signature verifies and it is within its validity period) and the
  payload lacks a user identifier or a role, or holds a falsy one, the request ends with
  401 \<open>Invalid token\<close> and exactly one warning is logged, which carries the payload's
  \<open>userId\<close> and nothing else of the payload.
\<close>

theorem incomplete_claims_rejected:
  "(\<forall>d. auth_user (authenticate v secret req) = Some d \<longrightarrow>
       (\<exists>h tok. authorization req = Some h
            \<and> at_index (js_split CHR '' '' h) 1 = Some tok
            \<and> v tok secret \<lparr>algorithms = [''HS256''], complete = False\<rparr> = Inr d)
       \<and> truthy (field d ''userId'') \<and> truthy (field d ''role''))
   \<and> (authorization req = Some (''Bearer '' @ token) \<and> CHR '' '' \<notin> set token
      \<and> token \<noteq> [] \<and> token \<noteq> ''null'' \<and> token \<noteq> ''undefined''
      \<longrightarrow>
        (\<forall>d. auth_user (authenticate v secret req) = Some d \<longrightarrow>
           v token secret \<lparr>algorithms = [''HS256''], complete = False\<rparr> = Inr d
           \<and> truthy (field d ''userId'') \<and> truthy (field d ''role''))
      \<and> (\<forall>err. v token secret \<lparr>algorithms = [''HS256''], complete = False\<rparr> = Inl err \<longrightarrow>
           auth_user (authenticate v secret req) = None
           \<and> (\<exists>body. auth_outcome (authenticate v secret req) = Respond 401 body))
      \<and> (\<forall>decoded. v token secret \<lparr>algorithms = [''HS256''], complete = False\<rparr> = Inr decoded
           \<and> (\<not> truthy (field decoded ''userId'') \<or> \<not> truthy (field decoded ''role''))
           \<longrightarrow> authenticate v secret req =
            \<lparr>auth_outcome = Respond 401 [(''message'', ''Invalid token'')],
             auth_user = None,
             auth_logs = [\<lparr>severity = Warn, message = ''Invalid token payload'',
                           meta = [(''userId'', field decoded ''userId'')]\<rparr>]\<rparr>))"
proof (intro conjI)
  show "\<forall>d. auth_user (authenticate v secret req) = Some d \<longrightarrow>
       (\<exists>h tok. authorization req = Some h
            \<and> at_index (js_split CHR '' '' h) 1 = Some tok
            \<and> v tok secret \<lparr>algorithms = [''HS256''], complete = False\<rparr> = Inr d)
       \<and> truthy (field d ''userId'') \<and> truthy (field d ''role'')"
    by (auto simp: authenticate_def authentication_required_def
        split: option.splits sum.splits if_splits)
next
  show "authorization req = Some (''Bearer '' @ token) \<and> CHR '' '' \<notin> set token
      \<and> token \<noteq> [] \<and> token \<noteq> ''null'' \<and> token \<noteq> ''undefined''
      \<longrightarrow>
        (\<forall>d. auth_user (authenticate v secret req) = Some d \<longrightarrow>
           v token secret \<lparr>algorithms = [''HS256''], complete = False\<rparr> = Inr d
           \<and> truthy (field d ''userId'') \<and> truthy (field d ''role''))
      \<and> (\<forall>err. v token secret \<lparr>algorithms = [''HS256''], complete = False\<rparr> = Inl err \<longrightarrow>
           auth_user (authenticate v secret req) = None
           \<and> (\<exists>body. auth_outcome (authenticate v secret req) = Respond 401 body))
      \<and> (\<forall>decoded. v token secret \<lparr>algorithms = [''HS256''], complete = False\<rparr> = Inr decoded
           \<and> (\<not> truthy (field decoded ''userId'') \<or> \<not> truthy (field decoded ''role''))
           \<longrightarrow> authenticate v secret req =
            \<lparr>auth_outcome = Respond 401 [(''message'', ''Invalid token'')],
             auth_user = None,
             auth_logs = [\<lparr>severity = Warn, message = ''Invalid token payload'',
                           meta = [(''userId'', field decoded ''userId'')]\<rparr>]\<rparr>)"
  proof
    assume a: "authorization req = Some (''Bearer '' @ token) \<and> CHR '' '' \<notin> set token
      \<and> token \<noteq> [] \<and> token \<noteq> ''null'' \<and> token \<noteq> ''undefined''"
    then have "authorization req = Some (''Bearer '' @ token)" "CHR '' '' \<notin> set token"
      "token \<noteq> []" "token \<noteq> ''null''" "token \<noteq> ''undefined''"
      by simp_all
    note run = authenticate_Bearer [OF this, of v secret]
    show "(\<forall>d. auth_user (authenticate v secret req) = Some d \<longrightarrow>
           v token secret \<lparr>algorithms = [''HS256''], complete = False\<rparr> = Inr d
           \<and> truthy (field d ''userId'') \<and> truthy (field d ''role''))
      \<and> (\<forall>err. v token secret \<lparr>algorithms = [''HS256''], complete = False\<rparr> = Inl err \<longrightarrow>
           auth_user (authenticate v secret req) = None
           \<and> (\<exists>body. auth_outcome (authenticate v secret req) = Respond 401 body))
      \<and> (\<forall>decoded. v token secret \<lparr>algorithms = [''HS256''], complete = False\<rparr> = Inr decoded
           \<and> (\<not> truthy (field decoded ''userId'') \<or> \<not> truthy (field decoded ''role''))
           \<longrightarrow> authenticate v secret req =
            \<lparr>auth_outcome = Respond 401 [(''message'', ''Invalid token'')],
             auth_user = None,
             auth_logs = [\<lparr>severity = Warn, message = ''Invalid token payload'',
                           meta = [(''userId'', field decoded ''userId'')]\<rparr>]\<rparr>)"
      unfolding run
      by (cases "v token secret \<lparr>algorithms = [''HS256''], complete = False\<rparr>") auto
  qed
qed

theorem incomplete_claims_rejected_witness:
  "authenticate (jwt_verify [''a.b.c'' \<mapsto>
        \<lparr>header_alg = ''HS256'', signed_alg = ''HS256'', signed_key = ''s3cret'',
         claims = [''userId'' \<mapsto> JNum 7, ''exp'' \<mapsto> JNum 100]\<rparr>] 50)
      (Some ''s3cret'') \<lparr>authorization = Some ''Bearer a.b.c'', ip = ''10.0.0.1''\<rparr>
   = \<lparr>auth_outcome = Respond 401 [(''message'', ''Invalid token'')],
      auth_user = None,
      auth_logs = [\<lparr>severity = Warn, message = ''Invalid token payload'',
                    meta = [(''userId'', JNum 7)]\<rparr>]\<rparr>
   \<and> auth_user (authenticate (jwt_verify [''a.b.c'' \<mapsto>
        \<lparr>header_alg = ''HS256'', signed_alg = ''HS256'', signed_key = ''s3cret'',
         claims = [''userId'' \<mapsto> JNum 7, ''exp'' \<mapsto> JNum 100]\<rparr>] 200)
      (Some ''s3cret'') \<lparr>authorization = Some ''Bearer a.b.c'', ip = ''10.0.0.1''\<rparr>) = None"
  using incomplete_claims_rejected [of
      "jwt_verify [''a.b.c'' \<mapsto>
        \<lparr>header_alg = ''HS256'', signed_alg = ''HS256'', signed_key = ''s3cret'',
         claims = [''userId'' \<mapsto> JNum 7, ''exp'' \<mapsto> JNum 100]\<rparr>] 50"
      "Some ''s3cret''" "\<lparr>authorization = Some ''Bearer a.b.c'', ip = ''10.0.0.1''\<rparr>" "''a.b.c''"]
    incomplete_claims_rejected [of
      "jwt_verify [''a.b.c'' \<mapsto>
        \<lparr>header_alg = ''HS256'', signed_alg = ''HS256'', signed_key = ''s3cret'',
         claims = [''userId'' \<mapsto> JNum 7, ''exp'' \<mapsto> JNum 100]\<rparr>] 200"
      "Some ''s3cret''" "\<lparr>authorization = Some ''Bearer a.b.c'', ip = ''10.0.0.1''\<rparr>" "''a.b.c''"]
  by (simp add: jwt_verify_def expired_def not_yet_valid_def field_def)

subsection \<open>The presence check\<close>

text \<open>
  Claim C10. A request whose \<open>Authorization\<close> header is absent, or does not begin with
  \<^verbatim>\<open>Bearer \<close> (the empty header included), or whose token part is empty or is the
  string \<open>null\<close> or \<open>undefined\<close>, gets the same answer in every case: 401 with the message
  \<open>Authentication required\<close>, no principal attached, nothing logged, and the library is
  never consulted (the answer is the same for every verifier and secret).
\<close>

theorem missing_token:
  assumes "authorization req = None
     \<or> (\<exists>h. authorization req = Some h \<and> \<not> startsWith h ''Bearer '')
     \<or> (\<exists>t. authorization req = Some (''Bearer '' @ t)
            \<and> (t = [] \<or> t = ''null'' \<or> t = ''undefined''))"
  shows "authenticate v secret req =
           \<lparr>auth_outcome = Respond 401 [(''message'', ''Authentication required'')],
            auth_user = None, auth_logs = []\<rparr>"
  using assms
  by (auto simp: authenticate_def authentication_required_def at_index_def
      split: option.splits)

theorem missing_token_witness:
  "authenticate (jwt_verify Map.empty 0) (Some ''s3cret'') \<lparr>authorization = None, ip = ''10.0.0.1''\<rparr>
     = \<lparr>auth_outcome = Respond 401 [(''message'', ''Authentication required'')],
        auth_user = None, auth_logs = []\<rparr>
   \<and> authenticate (jwt_verify Map.empty 0) (Some ''s3cret'')
       \<lparr>authorization = Some ''Basic dXNlcjpwdw=='', ip = ''10.0.0.1''\<rparr>
     = \<lparr>auth_outcome = Respond 401 [(''message'', ''Authentication required'')],
        auth_user = None, auth_logs = []\<rparr>
   \<and> authenticate (jwt_verify Map.empty 0) (Some ''s3cret'')
       \<lparr>authorization = Some ''Bearer '', ip = ''10.0.0.1''\<rparr>
     = \<lparr>auth_outcome = Respond 401 [(''message'', ''Authentication required'')],
        auth_user = None, auth_logs = []\<rparr>
   \<and> authenticate (jwt_verify Map.empty 0) (Some ''s3cret'')
       \<lparr>authorization = Some ''Bearer null'', ip = ''10.0.0.1''\<rparr>
     = \<lparr>auth_outcome = Respond 401 [(''message'', ''Authentication required'')],
        auth_user = None, auth_logs = []\<rparr>
   \<and> authenticate (jwt_verify Map.empty 0) (Some ''s3cret'')
       \<lparr>authorization = Some ''Bearer undefined'', ip = ''10.0.0.1''\<rparr>
     = \<lparr>auth_outcome = Respond 401 [(''message'', ''Authentication required'')],
        auth_user = None, auth_logs = []\<rparr>"
  using
    missing_token [of "\<lparr>authorization = None, ip = ''10.0.0.1''\<rparr>"
      "jwt_verify Map.empty 0" "Some ''s3cret''"]
    missing_token [of "\<lparr>authorization = Some ''Basic dXNlcjpwdw=='', ip = ''10.0.0.1''\<rparr>"
      "jwt_verify Map.empty 0" "Some ''s3cret''"]
    missing_token [of "\<lparr>authorization = Some ''Bearer '', ip = ''10.0.0.1''\<rparr>"
      "jwt_verify Map.empty 0" "Some ''s3cret''"]
    missing_token [of "\<lparr>authorization = Some ''Bearer null'', ip = ''10.0.0.1''\<rparr>"
      "jwt_verify Map.empty 0" "Some ''s3cret''"]
    missing_token [of "\<lparr>authorization = Some ''Bearer undefined'', ip = ''10.0.0.1''\<rparr>"
      "jwt_verify Map.empty 0" "Some ''s3cret''"]
  by (simp add: startsWith_def)

section \<open>Properties of the credential generator\<close>

subsection \<open>Draws\<close>

lemma secureRandomInt_range:
  assumes "0 < m"
  shows "\<exists>k. secureRandomInt m e = Inr (k, e \<circ> Suc) \<and> 0 \<le> k \<and> k < m"
  using assms by (simp add: secureRandomInt_def)

lemma secureRandomInt_Suc:
  "secureRandomInt (int i + 1) e = Inr (int (e 0 mod (i + 1)), e \<circ> Suc)"
proof -
  have "int i + 1 = int (i + 1)"
    by simp
  then have "int (e 0) mod (int i + 1) = int (e 0 mod (i + 1))"
    by (simp only: zmod_int)
  then show ?thesis
    by (simp add: secureRandomInt_def)
qed

lemma charAt_in_range:
  "0 \<le> k \<Longrightarrow> k < int (length s) \<Longrightarrow> \<exists>c. charAt s k = [c] \<and> c \<in> set s"
  by (simp add: charAt_def)

lemma draw_char:
  assumes "s \<noteq> []"
  shows "\<exists>k c. secureRandomInt (int (length s)) e = Inr (k, e \<circ> Suc)
            \<and> charAt s k = [c] \<and> c \<in> set s"
proof -
  have "0 < int (length s)"
    using assms by simp
  then obtain k where k: "secureRandomInt (int (length s)) e = Inr (k, e \<circ> Suc)"
      "0 \<le> k" "k < int (length s)"
    using secureRandomInt_range by blast
  then obtain c where "charAt s k = [c]" "c \<in> set s"
    using charAt_in_range by blast
  with k(1) show ?thesis by blast
qed

subsection \<open>The shuffle loop is Fisher--Yates\<close>

lemma fisher_yates_step_eq:
  "fisher_yates_step i (arr, e) =
     (arr[i := arr ! (e 0 mod (i + 1)), e 0 mod (i + 1) := arr ! i], e \<circ> Suc)"
  by (simp only: fisher_yates_step_def prod.case secureRandomInt_Suc sum.case nat_int)

lemma shuffle_loop_step:
  "shuffle_loop (int (Suc n)) arr e =
     shuffle_loop (int n)
       (arr[Suc n := arr ! (e 0 mod (Suc n + 1)), e 0 mod (Suc n + 1) := arr ! Suc n]) (e \<circ> Suc)"
proof -
  have "shuffle_loop (int (Suc n)) arr e =
     shuffle_loop (int (Suc n) - 1)
       (arr[nat (int (Suc n)) := arr ! nat (int (e 0 mod (Suc n + 1))),
            nat (int (e 0 mod (Suc n + 1))) := arr ! nat (int (Suc n))]) (e \<circ> Suc)"
    by (subst shuffle_loop.simps) (simp only: secureRandomInt_Suc sum.case prod.case, simp)
  then show ?thesis
    by (simp only: nat_int) simp
qed

lemma shuffle_loop_stop: "i \<le> 0 \<Longrightarrow> shuffle_loop i arr e = Inr (arr, e)"
  by (subst shuffle_loop.simps) simp

lemma shuffle_loop_fold:
  "shuffle_loop (int n) arr e = Inr (fold fisher_yates_step (rev [1..<Suc n]) (arr, e))"
proof (induction n arbitrary: arr e)
  case 0
  then show ?case by (simp add: shuffle_loop_stop)
next
  case (Suc n)
  have "rev [1..<Suc (Suc n)] = Suc n # rev [1..<Suc n]"
    by simp
  then show ?case
    by (simp only: shuffle_loop_step Suc.IH fold_simps fisher_yates_step_eq)
qed

lemma secureShuffle_fisher_yates: "secureShuffle arr e = Inr (fisher_yates arr e)"
proof (cases arr)
  case Nil
  then show ?thesis
    by (simp add: secureShuffle_def fisher_yates_def shuffle_loop_stop)
next
  case (Cons x xs)
  then have "int (length arr) - 1 = int (length xs)" "[1..<length arr] = [1..<Suc (length xs)]"
    by simp_all
  then show ?thesis
    unfolding secureShuffle_def fisher_yates_def by (simp only: shuffle_loop_fold)
qed

subsection \<open>Each swap keeps the elements\<close>

lemma fisher_yates_step_mset:
  assumes "i < length arr"
  shows "mset (fst (fisher_yates_step i (arr, e))) = mset arr"
proof -
  have "e 0 mod (i + 1) < i + 1"
    by simp
  then have "e 0 mod (i + 1) < length arr"
    using assms by linarith
  then show ?thesis
    using assms by (simp add: fisher_yates_step_eq mset_swap)
qed

lemma fold_steps_mset:
  "n < length arr \<Longrightarrow> mset (fst (fold fisher_yates_step (rev [1..<Suc n]) (arr, e))) = mset arr"
proof (induction n arbitrary: arr e)
  case 0
  then show ?case by simp
next
  case (Suc n)
  obtain arr' e' where s: "fisher_yates_step (Suc n) (arr, e) = (arr', e')"
    by (cases "fisher_yates_step (Suc n) (arr, e)")
  have m: "mset arr' = mset arr"
    using fisher_yates_step_mset [OF Suc.prems, of e] s by simp
  then have "length arr' = length arr"
    by (rule mset_eq_length)
  then have "n < length arr'"
    using Suc.prems by simp
  then have "mset (fst (fold fisher_yates_step (rev [1..<Suc n]) (arr', e'))) = mset arr'"
    by (rule Suc.IH)
  moreover have "rev [1..<Suc (Suc n)] = Suc n # rev [1..<Suc n]"
    by simp
  ultimately show ?case
    by (simp only: fold_simps s m)
qed

lemma fisher_yates_mset: "mset (fst (fisher_yates arr e)) = mset arr"
proof (cases arr)
  case Nil
  then show ?thesis by (simp add: fisher_yates_def)
next
  case (Cons x xs)
  then have "[1..<length arr] = [1..<Suc (length xs)]" "length xs < length arr"
    by simp_all
  then show ?thesis
    unfolding fisher_yates_def by (simp only: fold_steps_mset)
qed

text \<open>
  Claim C8. For every input sequence and every run of the random source,
  \<^verbatim>\<open>secureShuffle\<close> returns (it throws nothing), its output has the same elements with
  the same multiplicities as the input and the same length, and the loop of the source
  computes exactly Fisher--Yates as the specification words it: the indices from
  \<open>n - 1\<close> down to 1, each swapped with the partner drawn by \<^verbatim>\<open>secureRandomInt(i + 1)\<close>.
\<close>

theorem secureShuffle_permutation:
  "\<exists>out e'. secureShuffle arr e = Inr (out, e') \<and> (out, e') = fisher_yates arr e
     \<and> mset out = mset arr \<and> length out = length arr"
proof -
  obtain out e' where f: "fisher_yates arr e = (out, e')"
    by (cases "fisher_yates arr e")
  have "mset out = mset arr"
    using fisher_yates_mset [of arr e] f by simp
  moreover from this have "length out = length arr"
    by (rule mset_eq_length)
  ultimately show ?thesis
    using f by (simp add: secureShuffle_fisher_yates)
qed

theorem secureShuffle_permutation_witness:
  "\<exists>out e'. secureShuffle ''abca'' id = Inr (out, e') \<and> (out, e') = fisher_yates ''abca'' id
     \<and> mset out = mset ''abca'' \<and> length out = length ''abca''"
  using secureShuffle_permutation [of "''abca''" id] by blast

subsection \<open>The generated password\<close>

lemma allChars_nonempty: "allChars \<noteq> []"
  by (simp add: allChars_def uppercase_def)

lemma class_nonempty:
  "uppercase \<noteq> []" "lowercase \<noteq> []" "numbers \<noteq> []" "symbols \<noteq> []"
  by (simp_all add: uppercase_def lowercase_def numbers_def symbols_def)

lemma class_subset:
  "set uppercase \<subseteq> set allChars" "set lowercase \<subseteq> set allChars"
  "set numbers \<subseteq> set allChars" "set symbols \<subseteq> set allChars"
  by (auto simp: allChars_def)

lemma fill_loop_result:
  "\<exists>pw' e'. fill_loop i len pw e = Inr (pw', e')
      \<and> length pw' = length pw + nat (len - i)
      \<and> set pw \<subseteq> set pw' \<and> set pw' \<subseteq> set pw \<union> set allChars"
proof (induction i len pw e rule: fill_loop.induct)
  case (1 i len password e)
  show ?case
  proof (cases "i < len")
    case False
    then show ?thesis
      by (subst fill_loop.simps) simp
  next
    case True
    obtain k c where r: "secureRandomInt (int (length allChars)) e = Inr (k, e \<circ> Suc)"
      and c: "charAt allChars k = [c]" "c \<in> set allChars"
      using draw_char [OF allChars_nonempty] by blast
    obtain pw' e' where ih:
      "fill_loop (i + 1) len (password @ charAt allChars k) (e \<circ> Suc) = Inr (pw', e')"
      "length pw' = length (password @ charAt allChars k) + nat (len - (i + 1))"
      "set (password @ charAt allChars k) \<subseteq> set pw'"
      "set pw' \<subseteq> set (password @ charAt allChars k) \<union> set allChars"
      using "1.IH" [OF True r refl] by blast
    have step: "fill_loop i len password e =
        fill_loop (i + 1) len (password @ charAt allChars k) (e \<circ> Suc)"
      using True by (subst fill_loop.simps) (simp add: r)
    have "length pw' = length password + nat (len - i)"
      using ih(2) c(1) True by simp
    moreover have "set password \<subseteq> set pw'"
      using ih(3) by simp
    moreover have "set pw' \<subseteq> set password \<union> set allChars"
      using ih(4) c by auto
    ultimately show ?thesis
      using step ih(1) by simp
  qed
qed

lemma concat_split_chars: "concat (split_chars s) = s"
  by (induction s) (simp_all add: split_chars_def)

lemma mset_concat_cong:
  assumes "mset xs = mset ys"
  shows "mset (concat xs) = mset (concat ys)"
proof -
  have "mset (concat zs) = sum_mset (image_mset mset (mset zs))" for zs :: "'a list list"
    by (simp add: mset_concat flip: sum_mset_sum_list)
  then show ?thesis
    using assms by simp
qed

lemma shuffled_join:
  "\<exists>out e'. secureShuffle (split_chars pw) e = Inr (out, e') \<and> mset (join out) = mset pw"
proof -
  obtain out e' where f: "fisher_yates (split_chars pw) e = (out, e')"
    by (cases "fisher_yates (split_chars pw) e")
  have "mset out = mset (split_chars pw)"
    using fisher_yates_mset [of "split_chars pw" e] f by simp
  then have "mset (concat out) = mset (concat (split_chars pw))"
    by (rule mset_concat_cong)
  then have "mset (join out) = mset pw"
    by (simp add: join_def concat_split_chars)
  then show ?thesis
    using f by (simp add: secureShuffle_fisher_yates)
qed

text \<open>
  Every call returns: four guaranteed characters, \<open>length - 4\<close> more when that is
  positive, shuffled.
\<close>

lemma generateTempPassword_result:
  "\<exists>s e'. generateTempPassword (Some n) e = Inr (s, e')
     \<and> length s = 4 + nat (n - 4)
     \<and> (\<exists>c\<in>set s. c \<in> set uppercase) \<and> (\<exists>c\<in>set s. c \<in> set lowercase)
     \<and> (\<exists>c\<in>set s. c \<in> set numbers) \<and> (\<exists>c\<in>set s. c \<in> set symbols)
     \<and> set s \<subseteq> set allChars"
proof -
  obtain k1 c1 where d1: "secureRandomInt (int (length uppercase)) e = Inr (k1, e \<circ> Suc)"
    "charAt uppercase k1 = [c1]" "c1 \<in> set uppercase"
    using draw_char [OF class_nonempty(1)] by blast
  obtain k2 c2 where d2:
    "secureRandomInt (int (length lowercase)) (e \<circ> Suc) = Inr (k2, e \<circ> Suc \<circ> Suc)"
    "charAt lowercase k2 = [c2]" "c2 \<in> set lowercase"
    using draw_char [OF class_nonempty(2)] by blast
  obtain k3 c3 where d3:
    "secureRandomInt (int (length numbers)) (e \<circ> Suc \<circ> Suc) = Inr (k3, e \<circ> Suc \<circ> Suc \<circ> Suc)"
    "charAt numbers k3 = [c3]" "c3 \<in> set numbers"
    using draw_char [OF class_nonempty(3)] by blast
  obtain k4 c4 where d4:
    "secureRandomInt (int (length symbols)) (e \<circ> Suc \<circ> Suc \<circ> Suc)
       = Inr (k4, e \<circ> Suc \<circ> Suc \<circ> Suc \<circ> Suc)"
    "charAt symbols k4 = [c4]" "c4 \<in> set symbols"
    using draw_char [OF class_nonempty(4)] by blast
  obtain pw e5 where fl:
    "fill_loop 4 n [c1, c2, c3, c4] (e \<circ> Suc \<circ> Suc \<circ> Suc \<circ> Suc) = Inr (pw, e5)"
    "length pw = length [c1, c2, c3, c4] + nat (n - 4)"
    "set [c1, c2, c3, c4] \<subseteq> set pw" "set pw \<subseteq> set [c1, c2, c3, c4] \<union> set allChars"
    using fill_loop_result by blast
  obtain out e6 where sh: "secureShuffle (split_chars pw) e5 = Inr (out, e6)"
    "mset (join out) = mset pw"
    using shuffled_join by blast
  have run: "generateTempPassword (Some n) e = Inr (join out, e6)"
    by (simp add: generateTempPassword_def d1 d2 d3 d4 fl(1) sh(1))
  have len: "length (join out) = 4 + nat (n - 4)"
    using mset_eq_length [OF sh(2)] fl(2) by simp
  have eq: "set (join out) = set pw"
    using sh(2) by (rule mset_eq_setD)
  have "c1 \<in> set pw" "c2 \<in> set pw" "c3 \<in> set pw" "c4 \<in> set pw"
    using fl(3) by simp_all
  then have cls:
    "\<exists>c\<in>set (join out). c \<in> set uppercase" "\<exists>c\<in>set (join out). c \<in> set lowercase"
    "\<exists>c\<in>set (join out). c \<in> set numbers" "\<exists>c\<in>set (join out). c \<in> set symbols"
    using d1(3) d2(3) d3(3) d4(3) eq by blast+
  have sub: "set (join out) \<subseteq> set allChars"
    using fl(4) d1(3) d2(3) d3(3) d4(3) class_subset eq by auto
  show ?thesis
    using run len cls sub by blast
qed

text \<open>
  Claim C7. For every length \<open>n\<close> from 4 on (the lengths up to 128 among them) and
  every run of the random source, \<^verbatim>\<open>generateTempPassword(n)\<close> returns a string of exactly
  \<open>n\<close> characters with at least one uppercase letter, one lowercase letter, one digit
  and one character of \<^verbatim>\<open>!@#$%^&*\<close>, and every character of it belongs to one of the
  four classes.
\<close>

theorem temp_password_composition:
  assumes "4 \<le> n"
  shows "\<exists>s e'. generateTempPassword (Some n) e = Inr (s, e')
     \<and> int (length s) = n
     \<and> (\<exists>c\<in>set s. c \<in> set uppercase) \<and> (\<exists>c\<in>set s. c \<in> set lowercase)
     \<and> (\<exists>c\<in>set s. c \<in> set numbers) \<and> (\<exists>c\<in>set s. c \<in> set symbols)
     \<and> set s \<subseteq> set uppercase \<union> set lowercase \<union> set numbers \<union> set symbols"
proof -
  obtain s e' where r: "generateTempPassword (Some n) e = Inr (s, e')"
     "length s = 4 + nat (n - 4)"
     "\<exists>c\<in>set s. c \<in> set uppercase" "\<exists>c\<in>set s. c \<in> set lowercase"
     "\<exists>c\<in>set s. c \<in> set numbers" "\<exists>c\<in>set s. c \<in> set symbols"
     "set s \<subseteq> set allChars"
    using generateTempPassword_result by blast
  have "int (length s) = n"
    using r(2) assms by simp
  moreover have "set s \<subseteq> set uppercase \<union> set lowercase \<union> set numbers \<union> set symbols"
    using r(7) by (auto simp: allChars_def)
  ultimately show ?thesis
    using r(1,3,4,5,6) by blast
qed

theorem temp_password_composition_witness:
  "\<exists>s e'. generateTempPassword (Some 128) id = Inr (s, e')
     \<and> int (length s) = 128
     \<and> (\<exists>c\<in>set s. c \<in> set uppercase) \<and> (\<exists>c\<in>set s. c \<in> set lowercase)
     \<and> (\<exists>c\<in>set s. c \<in> set numbers) \<and> (\<exists>c\<in>set s. c \<in> set symbols)
     \<and> set s \<subseteq> set uppercase \<union> set lowercase \<union> set numbers \<union> set symbols"
  using temp_password_composition [of 128 id] by simp

subsection \<open>Lengths below the number of classes\<close>

lemma draw_char_exact:
  assumes "s \<noteq> []"
  shows "secureRandomInt (int (length s)) e = Inr (int (e 0 mod length s), e \<circ> Suc)"
    and "charAt s (int (e 0 mod length s)) = [s ! (e 0 mod length s)]"
proof -
  have pos: "0 < length s"
    using assms by simp
  have "int (e 0) mod int (length s) = int (e 0 mod length s)"
    by (simp only: zmod_int)
  then show "secureRandomInt (int (length s)) e = Inr (int (e 0 mod length s), e \<circ> Suc)"
    using pos by (simp add: secureRandomInt_def)
  have "e 0 mod length s < length s"
    using pos by simp
  then show "charAt s (int (e 0 mod length s)) = [s ! (e 0 mod length s)]"
    by (simp add: charAt_def)
qed

lemma fill_loop_none: "len \<le> i \<Longrightarrow> fill_loop i len pw e = Inr (pw, e)"
  by (subst fill_loop.simps) simp


text \<open>
  Claim C6, as stated, asks that a call with a length below 4 fails with an
  \<open>InvalidLengthError\<close> and returns no string. The function has no check of its
  argument: with length 2, under the tape \<open>0, 1, 2, \<dots>\<close>, it returns the four-character
  string \<^verbatim>\<open>b$2A\<close>, longer than the length asked for.
\<close>

theorem short_length_counterexample:
  "returned (generateTempPassword (Some 2) id) = Inr ''b$2A''"
  by code_simp

text \<open>
  Claim C6, amended. For every call with a length below 4 (zero and negative lengths
  included) and every run of the random source, the generator throws nothing: it draws
  one character of each of the four classes, in the order uppercase, lowercase, digit,
  symbol, adds no other, and returns the Fisher--Yates shuffle of these four characters,
  a string of exactly 4 characters. No guaranteed class is dropped.
\<close>

theorem short_length_returns_four:
  assumes "n < 4"
  shows "\<exists>out e'. generateTempPassword (Some n) e = Inr (join out, e')
     \<and> (out, e') = fisher_yates
           (split_chars [uppercase ! (e 0 mod length uppercase),
                         lowercase ! (e 1 mod length lowercase),
                         numbers ! (e 2 mod length numbers),
                         symbols ! (e 3 mod length symbols)])
           (e \<circ> Suc \<circ> Suc \<circ> Suc \<circ> Suc)
     \<and> mset (join out) = mset [uppercase ! (e 0 mod length uppercase),
                                lowercase ! (e 1 mod length lowercase),
                                numbers ! (e 2 mod length numbers),
                                symbols ! (e 3 mod length symbols)]
     \<and> length (join out) = 4
     \<and> uppercase ! (e 0 mod length uppercase) \<in> set uppercase
     \<and> lowercase ! (e 1 mod length lowercase) \<in> set lowercase
     \<and> numbers ! (e 2 mod length numbers) \<in> set numbers
     \<and> symbols ! (e 3 mod length symbols) \<in> set symbols"
proof -
  define c1 where "c1 = uppercase ! (e 0 mod length uppercase)"
  define c2 where "c2 = lowercase ! (e 1 mod length lowercase)"
  define c3 where "c3 = numbers ! (e 2 mod length numbers)"
  define c4 where "c4 = symbols ! (e 3 mod length symbols)"
  define e4 where "e4 = e \<circ> Suc \<circ> Suc \<circ> Suc \<circ> Suc"
  have t1: "(e \<circ> Suc) 0 = e 1" and t2: "(e \<circ> Suc \<circ> Suc) 0 = e 2"
    and t3: "(e \<circ> Suc \<circ> Suc \<circ> Suc) 0 = e 3"
    by (simp_all add: numeral_2_eq_2 numeral_3_eq_3)
  have d1: "secureRandomInt (int (length uppercase)) e
              = Inr (int (e 0 mod length uppercase), e \<circ> Suc)"
    "charAt uppercase (int (e 0 mod length uppercase)) = [c1]"
    unfolding c1_def by (rule draw_char_exact [OF class_nonempty(1)])+
  have d2: "secureRandomInt (int (length lowercase)) (e \<circ> Suc)
              = Inr (int (e 1 mod length lowercase), e \<circ> Suc \<circ> Suc)"
    "charAt lowercase (int (e 1 mod length lowercase)) = [c2]"
    unfolding c2_def using draw_char_exact [OF class_nonempty(2), of "e \<circ> Suc"]
    by (simp_all only: t1)
  have d3: "secureRandomInt (int (length numbers)) (e \<circ> Suc \<circ> Suc)
              = Inr (int (e 2 mod length numbers), e \<circ> Suc \<circ> Suc \<circ> Suc)"
    "charAt numbers (int (e 2 mod length numbers)) = [c3]"
    unfolding c3_def using draw_char_exact [OF class_nonempty(3), of "e \<circ> Suc \<circ> Suc"]
    by (simp_all only: t2)
  have d4: "secureRandomInt (int (length symbols)) (e \<circ> Suc \<circ> Suc \<circ> Suc) = Inr (int (e 3 mod length symbols), e4)"
    "charAt symbols (int (e 3 mod length symbols)) = [c4]"
    unfolding c4_def e4_def
    using draw_char_exact [OF class_nonempty(4), of "e \<circ> Suc \<circ> Suc \<circ> Suc"]
    by (simp_all only: t3)
  have fl: "fill_loop 4 n [c1, c2, c3, c4] e4 = Inr ([c1, c2, c3, c4], e4)"
    using assms by (intro fill_loop_none) simp
  obtain out e' where f: "fisher_yates (split_chars [c1, c2, c3, c4]) e4 = (out, e')"
    by (cases "fisher_yates (split_chars [c1, c2, c3, c4]) e4")
  have sh: "secureShuffle (split_chars [c1, c2, c3, c4]) e4 = Inr (out, e')"
    by (simp add: secureShuffle_fisher_yates f)
  have run: "generateTempPassword (Some n) e = Inr (join out, e')"
    by (simp add: generateTempPassword_def d1 d2 [unfolded One_nat_def] d3 d4 fl sh)
  have "mset out = mset (split_chars [c1, c2, c3, c4])"
    using fisher_yates_mset [of "split_chars [c1, c2, c3, c4]" e4] f by simp
  then have "mset (concat out) = mset (concat (split_chars [c1, c2, c3, c4]))"
    by (rule mset_concat_cong)
  then have ms: "mset (join out) = mset [c1, c2, c3, c4]"
    by (simp only: join_def concat_split_chars)
  have len: "length (join out) = 4"
    using mset_eq_length [OF ms] by simp
  have mem: "c1 \<in> set uppercase" "c2 \<in> set lowercase" "c3 \<in> set numbers" "c4 \<in> set symbols"
    unfolding c1_def c2_def c3_def c4_def using class_nonempty by simp_all
  show ?thesis
    using run f ms len mem
    unfolding c1_def c2_def c3_def c4_def e4_def by auto
qed

theorem short_length_returns_four_witness:
  "\<exists>out e'. generateTempPassword (Some 2) id = Inr (join out, e')
     \<and> (out, e') = fisher_yates
           (split_chars [uppercase ! (id 0 mod length uppercase),
                         lowercase ! (id 1 mod length lowercase),
                         numbers ! (id 2 mod length numbers),
                         symbols ! (id 3 mod length symbols)])
           (id \<circ> Suc \<circ> Suc \<circ> Suc \<circ> Suc)
     \<and> mset (join out) = mset [uppercase ! (id 0 mod length uppercase),
                                lowercase ! (id 1 mod length lowercase),
                                numbers ! (id 2 mod length numbers),
                                symbols ! (id 3 mod length symbols)]
     \<and> length (join out) = 4
     \<and> uppercase ! (id 0 mod length uppercase) \<in> set uppercase
     \<and> lowercase ! (id 1 mod length lowercase) \<in> set lowercase
     \<and> numbers ! (id 2 mod length numbers) \<in> set numbers
     \<and> symbols ! (id 3 mod length symbols) \<in> set symbols"
proof -
  have "(2::int) < 4"
    by simp
  from short_length_returns_four [OF this, of id] show ?thesis .
qed

end
